theory Spec2Isabelle
  imports Main "HOL-Library.Sublist"
begin

section \<open>JavaScript values and objects\<close>

text \<open>
  The store of \<^verbatim>\<open>src/lib/state.ts\<close> works on plain JavaScript objects. A value is a
  primitive or a reference to an object (a function, a promise, a component, a response).
  A number is \<^verbatim>\<open>NaN\<close> or one of the numbers that \<^verbatim>\<open>===\<close> compares by value, for which the
  integers stand (ids are counter values or caller-chosen numbers).
\<close>

datatype jsval = Undefined | Null | Bool bool | Num int | NaN | Str string | Ref nat

text \<open>
  JavaScript's \<^verbatim>\<open>===\<close>: primitives compare by value and references by identity, except
  that \<^verbatim>\<open>NaN\<close> is equal to nothing, itself included; \<^verbatim>\<open>!==\<close> is its negation. A
  comparison with the literal \<^verbatim>\<open>undefined\<close> is therefore plain equality, and is written
  so below.
\<close>

definition strict_eq :: "jsval \<Rightarrow> jsval \<Rightarrow> bool" where
  "strict_eq a b = (a = b \<and> a \<noteq> NaN)"

text \<open>
  An object is a map from property names to values; the spread \<^verbatim>\<open>{...a, ...b}\<close> is
  \<open>a ++ b\<close>, and reading a missing property gives \<^verbatim>\<open>undefined\<close>.
\<close>

type_synonym obj = "string \<rightharpoonup> jsval"

definition getprop :: "obj \<Rightarrow> string \<Rightarrow> jsval" where
  "getprop ob k = (case ob k of None \<Rightarrow> Undefined | Some v \<Rightarrow> v)"

text \<open>JavaScript truthiness of a value.\<close>

fun truthy :: "jsval \<Rightarrow> bool" where
  "truthy Undefined = False"
| "truthy Null = False"
| "truthy (Bool b) = b"
| "truthy (Num n) = (n \<noteq> 0)"
| "truthy NaN = False"
| "truthy (Str s) = (s \<noteq> [])"
| "truthy (Ref r) = True"

section \<open>The store\<close>

text \<open>
  Modelled from the spec: \<^verbatim>\<open>clientWritable\<close> of \<^verbatim>\<open>./internal/helpers.js\<close> is not among the
  sources. The spec describes both registries as observable ordered sequences whose
  mutations replace the whole sequence in one step, so each store is a field holding the
  current list: \<^verbatim>\<open>get\<close> reads it, \<^verbatim>\<open>set\<close> replaces it and \<^verbatim>\<open>update\<close> applies a function to
  it. The record and height types of \<^verbatim>\<open>./types.js\<close> are not among the sources either;
  both kinds of record are objects.

  \<^verbatim>\<open>toastsCounter\<close> is the module-level counter, \<open>toasts\<close> and \<open>heights\<close> are the two
  stores of \<^verbatim>\<open>createToastState\<close>, and \<open>calls\<close> records every call of a caller-supplied
  function (the function and its argument), in order.
\<close>

record state =
  toastsCounter :: int
  toasts :: "obj list"
  heights :: "obj list"
  calls :: "(jsval \<times> jsval) list"

definition addToast :: "obj \<Rightarrow> state \<Rightarrow> state" where
  "addToast data st = st\<lparr>toasts := data # toasts st\<rparr>"

text \<open>
  The test \<^verbatim>\<open>typeof data?.id === 'number' || (data.id && data.id?.length > 0)\<close> of
  \<^verbatim>\<open>create\<close>: a number is kept (also 0 and \<^verbatim>\<open>NaN\<close>), a string is kept when it is not empty, and
  \<^verbatim>\<open>undefined\<close>, \<^verbatim>\<open>null\<close> and booleans are not. The declared type of an id is
  \<^verbatim>\<open>number | string\<close>; an object reference is read as having no \<^verbatim>\<open>length\<close>.
\<close>

fun keeps_id :: "jsval \<Rightarrow> bool" where
  "keeps_id (Num n) = True"
| "keeps_id NaN = True"
| "keeps_id (Str s) = (0 < length s)"
| "keeps_id v = False"

text \<open>The id of a \<^verbatim>\<open>create\<close> call: the caller's, or \<^verbatim>\<open>toastsCounter++\<close>.\<close>

definition assign_id :: "obj \<Rightarrow> state \<Rightarrow> jsval \<times> state" where
  "assign_id data st =
     (if keeps_id (getprop data ''id'') then (getprop data ''id'', st)
      else (Num (toastsCounter st), st\<lparr>toastsCounter := toastsCounter st + 1\<rparr>))"

definition create :: "obj \<Rightarrow> state \<Rightarrow> jsval \<times> state" where
  "create data st =
     (let message = getprop data ''message'';
          rest = data(''message'' := None);
          (tid, st1) = assign_id data st;
          dismissable =
            (if getprop data ''dismissable'' = Undefined then Bool True
             else getprop data ''dismissable'');
          type = (if getprop data ''type'' = Undefined then Str ''default'' else getprop data ''type'');
          alreadyExists = find (\<lambda>toast. strict_eq (getprop toast ''id'') tid) (toasts st1)
      in case alreadyExists of
           Some found \<Rightarrow>
             (tid, st1\<lparr>toasts :=
                map (\<lambda>toast.
                      if strict_eq (getprop toast ''id'') tid
                      then (toast ++ data)(''id'' \<mapsto> tid, ''title'' \<mapsto> message,
                             ''dismissable'' \<mapsto> dismissable, ''type'' \<mapsto> type,
                             ''updated'' \<mapsto> Bool True)
                      else toast(''updated'' \<mapsto> Bool False))
                  (toasts st1)\<rparr>)
         | None \<Rightarrow>
             (tid, addToast (rest(''id'' \<mapsto> tid, ''title'' \<mapsto> message,
                     ''dismissable'' \<mapsto> dismissable, ''type'' \<mapsto> type)) st1))"

text \<open>\<^verbatim>\<open>dismiss(id?)\<close>; a call without argument is \<open>dismiss Undefined\<close>.\<close>

definition dismiss :: "jsval \<Rightarrow> state \<Rightarrow> jsval \<times> state" where
  "dismiss tid st =
     (if tid = Undefined then (Undefined, st\<lparr>toasts := []\<rparr>)
      else (tid,
            st\<lparr>toasts := filter (\<lambda>toast. \<not> strict_eq (getprop toast ''id'') tid) (toasts st)\<rparr>))"

text \<open>
  The typed wrappers build \<^verbatim>\<open>{ ...data, type: K, message }\<close>; their \<^verbatim>\<open>data\<close> argument is
  optional, and spreading \<^verbatim>\<open>undefined\<close> adds no property.
\<close>

definition spread :: "obj option \<Rightarrow> obj" where
  "spread data = (case data of None \<Rightarrow> Map.empty | Some d \<Rightarrow> d)"

definition message :: "jsval \<Rightarrow> obj option \<Rightarrow> state \<Rightarrow> jsval \<times> state" where
  "message msg data st = create ((spread data)(''type'' \<mapsto> Str ''default'', ''message'' \<mapsto> msg)) st"

definition error :: "jsval \<Rightarrow> obj option \<Rightarrow> state \<Rightarrow> jsval \<times> state" where
  "error msg data st = create ((spread data)(''type'' \<mapsto> Str ''error'', ''message'' \<mapsto> msg)) st"

definition success :: "jsval \<Rightarrow> obj option \<Rightarrow> state \<Rightarrow> jsval \<times> state" where
  "success msg data st = create ((spread data)(''type'' \<mapsto> Str ''success'', ''message'' \<mapsto> msg)) st"

definition info :: "jsval \<Rightarrow> obj option \<Rightarrow> state \<Rightarrow> jsval \<times> state" where
  "info msg data st = create ((spread data)(''type'' \<mapsto> Str ''info'', ''message'' \<mapsto> msg)) st"

definition warning :: "jsval \<Rightarrow> obj option \<Rightarrow> state \<Rightarrow> jsval \<times> state" where
  "warning msg data st = create ((spread data)(''type'' \<mapsto> Str ''warning'', ''message'' \<mapsto> msg)) st"

definition loading :: "jsval \<Rightarrow> obj option \<Rightarrow> state \<Rightarrow> jsval \<times> state" where
  "loading msg data st = create ((spread data)(''type'' \<mapsto> Str ''loading'', ''message'' \<mapsto> msg)) st"

text \<open>The facade's \<^verbatim>\<open>toastFunction\<close>: \<^verbatim>\<open>create({ message, ...data })\<close>.\<close>

definition toastFunction :: "jsval \<Rightarrow> obj option \<Rightarrow> state \<Rightarrow> jsval \<times> state" where
  "toastFunction msg data st = create ([''message'' \<mapsto> msg] ++ spread data) st"

text \<open>
  \<^verbatim>\<open>custom(component, data?)\<close>: \<^verbatim>\<open>const id = data?.id || toastsCounter++\<close>, then
  \<^verbatim>\<open>create({ component, id, ...data })\<close>, where the properties of \<^verbatim>\<open>data\<close> come last and
  so replace \<^verbatim>\<open>id\<close> when \<^verbatim>\<open>data\<close> has an \<^verbatim>\<open>id\<close> property of its own; the value of the
  variable \<^verbatim>\<open>id\<close> is returned.
\<close>

definition custom :: "jsval \<Rightarrow> obj option \<Rightarrow> state \<Rightarrow> jsval \<times> state" where
  "custom component data st =
     (let (tid, st1) =
            (if truthy (getprop (spread data) ''id'') then (getprop (spread data) ''id'', st)
             else (Num (toastsCounter st), st\<lparr>toastsCounter := toastsCounter st + 1\<rparr>));
          (created, st2) = create ([''component'' \<mapsto> component, ''id'' \<mapsto> tid] ++ spread data) st1
      in (tid, st2))"

definition removeHeight :: "jsval \<Rightarrow> state \<Rightarrow> state" where
  "removeHeight tid st =
     st\<lparr>heights :=
       filter (\<lambda>height. \<not> strict_eq (getprop height ''toastId'') tid) (heights st)\<rparr>"

definition setHeight :: "obj \<Rightarrow> state \<Rightarrow> state" where
  "setHeight data st =
     (case find (\<lambda>el. strict_eq (getprop el ''toastId'') (getprop data ''toastId''))
             (heights st) of
        None \<Rightarrow> st\<lparr>heights := data # heights st\<rparr>
      | Some found \<Rightarrow>
          st\<lparr>heights :=
            map (\<lambda>el. if strict_eq (getprop el ''toastId'') (getprop data ''toastId'') then data
                      else el)
              (heights st)\<rparr>)"

definition reset :: "state \<Rightarrow> state" where
  "reset st = st\<lparr>toasts := [], heights := []\<rparr>"

section \<open>Objects behind references, and calls of caller-supplied functions\<close>

text \<open>
  What \<^verbatim>\<open>promise\<close> asks of a referenced object: its properties (\<^verbatim>\<open>response.ok\<close>,
  \<^verbatim>\<open>response.status\<close>), whether it can be called (\<^verbatim>\<open>typeof f === 'function'\<close>) and
  whether it is a \<^verbatim>\<open>Promise\<close> instance. A call returns a value (\<open>Inr\<close>) or throws one
  (\<open>Inl\<close>); a function called without argument receives \<^verbatim>\<open>undefined\<close>. The conversion of
  a value to a string in the template literal is the language's, taken as \<open>toString\<close>.
\<close>

record heapobj =
  props :: obj
  callable :: "(jsval \<Rightarrow> jsval + jsval) option"
  isPromise :: bool

record env =
  objs :: "nat \<Rightarrow> heapobj"
  toString :: "jsval \<Rightarrow> string"

definition member :: "env \<Rightarrow> jsval \<Rightarrow> string \<Rightarrow> jsval" where
  "member e v k = (case v of Ref r \<Rightarrow> getprop (props (objs e r)) k | _ \<Rightarrow> Undefined)"

fun is_boolean :: "jsval \<Rightarrow> bool" where
  "is_boolean (Bool b) = True"
| "is_boolean v = False"

definition is_function :: "env \<Rightarrow> jsval \<Rightarrow> bool" where
  "is_function e v = (case v of Ref r \<Rightarrow> callable (objs e r) \<noteq> None | _ \<Rightarrow> False)"

definition is_promise :: "env \<Rightarrow> jsval \<Rightarrow> bool" where
  "is_promise e v = (case v of Ref r \<Rightarrow> isPromise (objs e r) | _ \<Rightarrow> False)"

text \<open>Calling a value that is not a function throws a \<^verbatim>\<open>TypeError\<close>.\<close>

definition type_error :: jsval where
  "type_error = Str ''TypeError''"

definition call :: "env \<Rightarrow> jsval \<Rightarrow> jsval \<Rightarrow> state \<Rightarrow> (jsval + jsval) \<times> state" where
  "call e f arg st =
     (case f of
        Ref r \<Rightarrow>
          (case callable (objs e r) of
             Some g \<Rightarrow> (g arg, st\<lparr>calls := calls st @ [(f, arg)]\<rparr>)
           | None \<Rightarrow> (Inl type_error, st))
      | _ \<Rightarrow> (Inl type_error, st))"

section \<open>promise\<close>

text \<open>
  The variables \<^verbatim>\<open>id\<close> and \<^verbatim>\<open>shouldDismiss\<close> that the three callbacks of \<^verbatim>\<open>promise\<close>
  share, and the promise \<^verbatim>\<open>p\<close> they are registered on.
\<close>

record closure =
  pid :: jsval
  shouldDismiss :: bool
  awaited :: jsval

text \<open>
  The synchronous part of \<^verbatim>\<open>promise(promise, data?)\<close>. It returns \<^verbatim>\<open>undefined\<close> and
  registers nothing without \<^verbatim>\<open>data\<close>; otherwise it returns \<^verbatim>\<open>id\<close> and leaves the
  callbacks, with their closure, waiting for \<^verbatim>\<open>p\<close>. \<open>Inl\<close> is an exception thrown by the
  call \<^verbatim>\<open>promise()\<close>.
\<close>

definition promise ::
  "env \<Rightarrow> jsval \<Rightarrow> obj option \<Rightarrow> state \<Rightarrow> (jsval + jsval \<times> closure option) \<times> state" where
  "promise e prom data st =
     (case data of
        None \<Rightarrow> (Inr (Undefined, None), st)
      | Some d \<Rightarrow>
          (let (tid, st1) =
                 (if getprop d ''loading'' \<noteq> Undefined
                  then create (d(''promise'' \<mapsto> prom, ''type'' \<mapsto> Str ''loading'',
                                 ''message'' \<mapsto> getprop d ''loading'')) st
                  else (Undefined, st));
               (p, st2) = (if is_promise e prom then (Inr prom, st1) else call e prom Undefined st1)
           in case p of
                Inl ex \<Rightarrow> (Inl ex, st2)
              | Inr pv \<Rightarrow>
                  (Inr (tid, Some \<lparr>pid = tid, shouldDismiss = (tid \<noteq> Undefined), awaited = pv\<rparr>),
                   st2)))"

text \<open>\<^verbatim>\<open>typeof h === 'function' ? h(arg) : h\<close>\<close>

definition handler_message :: "env \<Rightarrow> jsval \<Rightarrow> jsval \<Rightarrow> state \<Rightarrow> (jsval + jsval) \<times> state" where
  "handler_message e h arg st = (if is_function e h then call e h arg st else (Inr h, st))"

text \<open>\<^verbatim>\<open>response && typeof response.ok === 'boolean' && !response.ok\<close>\<close>

definition http_failure :: "env \<Rightarrow> jsval \<Rightarrow> bool" where
  "http_failure e response =
     (truthy response \<and> is_boolean (member e response ''ok'') \<and> \<not> truthy (member e response ''ok''))"

text \<open>
  The callback given to \<^verbatim>\<open>then\<close>. Each callback returns what it threw, if anything, with
  the closure and the store as it left them.
\<close>

definition then_cb ::
  "env \<Rightarrow> obj \<Rightarrow> jsval \<Rightarrow> closure \<Rightarrow> state \<Rightarrow> jsval option \<times> closure \<times> state" where
  "then_cb e data response c st =
     (if http_failure e response then
        (let c1 = c\<lparr>shouldDismiss := False\<rparr>;
             (m, st1) =
               (if is_function e (getprop data ''error'')
                then call e (getprop data ''error'')
                       (Str (''HTTP error! status: '' @ toString e (member e response ''status''))) st
                else (Inr (getprop data ''error''), st))
         in case m of
              Inl ex \<Rightarrow> (Some ex, c1, st1)
            | Inr msg \<Rightarrow>
                (None, c1,
                 snd (create [''id'' \<mapsto> pid c1, ''type'' \<mapsto> Str ''error'', ''message'' \<mapsto> msg] st1)))
      else if getprop data ''success'' \<noteq> Undefined then
        (let c1 = c\<lparr>shouldDismiss := False\<rparr>;
             (m, st1) = handler_message e (getprop data ''success'') response st
         in case m of
              Inl ex \<Rightarrow> (Some ex, c1, st1)
            | Inr msg \<Rightarrow>
                (None, c1,
                 snd (create [''id'' \<mapsto> pid c1, ''type'' \<mapsto> Str ''success'', ''message'' \<mapsto> msg] st1)))
      else (None, c, st))"

text \<open>The callback given to \<^verbatim>\<open>catch\<close>.\<close>

definition catch_cb ::
  "env \<Rightarrow> obj \<Rightarrow> jsval \<Rightarrow> closure \<Rightarrow> state \<Rightarrow> jsval option \<times> closure \<times> state" where
  "catch_cb e data err c st =
     (if getprop data ''error'' \<noteq> Undefined then
        (let c1 = c\<lparr>shouldDismiss := False\<rparr>;
             (m, st1) = handler_message e (getprop data ''error'') err st
         in case m of
              Inl ex \<Rightarrow> (Some ex, c1, st1)
            | Inr msg \<Rightarrow>
                (None, c1,
                 snd (create [''id'' \<mapsto> pid c1, ''type'' \<mapsto> Str ''error'', ''message'' \<mapsto> msg] st1)))
      else (None, c, st))"

text \<open>
  The callback given to \<^verbatim>\<open>finally\<close>; \<^verbatim>\<open>data.finally?.()\<close> is skipped when the property is
  \<^verbatim>\<open>undefined\<close> or \<^verbatim>\<open>null\<close>.
\<close>

definition finally_cb ::
  "env \<Rightarrow> obj \<Rightarrow> closure \<Rightarrow> state \<Rightarrow> jsval option \<times> closure \<times> state" where
  "finally_cb e data c st =
     (let (c1, st1) =
            (if shouldDismiss c then (c\<lparr>pid := Undefined\<rparr>, snd (dismiss (pid c) st)) else (c, st))
      in if getprop data ''finally'' = Undefined \<or> getprop data ''finally'' = Null
         then (None, c1, st1)
         else (case call e (getprop data ''finally'') Undefined st1 of
                 (Inl ex, st2) \<Rightarrow> (Some ex, c1, st2)
               | (Inr v, st2) \<Rightarrow> (None, c1, st2)))"

text \<open>
  How the tracked promise settles, and the chain \<^verbatim>\<open>p.then(..).catch(..).finally(..)\<close> run
  at that moment on the store as it then is: \<^verbatim>\<open>then\<close>'s callback runs on a resolution,
  \<^verbatim>\<open>catch\<close>'s on a rejection or on what the first callback threw, \<^verbatim>\<open>finally\<close>'s always.
  The first component is the rejection the chain ends with, if any.
\<close>

datatype settlement = Resolved jsval | Rejected jsval

definition then_catch ::
  "env \<Rightarrow> obj \<Rightarrow> settlement \<Rightarrow> closure \<Rightarrow> state \<Rightarrow> jsval option \<times> closure \<times> state" where
  "then_catch e data outcome c st =
     (let (t1, c1, st1) =
            (case outcome of
               Resolved response \<Rightarrow> then_cb e data response c st
             | Rejected err \<Rightarrow> (Some err, c, st))
      in case t1 of
           Some err \<Rightarrow> catch_cb e data err c1 st1
         | None \<Rightarrow> (None, c1, st1))"

definition settle ::
  "env \<Rightarrow> obj \<Rightarrow> settlement \<Rightarrow> closure \<Rightarrow> state \<Rightarrow> jsval option \<times> closure \<times> state" where
  "settle e data outcome c st =
     (let (t2, c2, st2) = then_catch e data outcome c st;
          (t3, c3, st3) = finally_cb e data c2 st2
      in ((case t3 of Some ex \<Rightarrow> Some ex | None \<Rightarrow> t2), c3, st3))"

section \<open>Sequences of operations\<close>

datatype op =
    Create obj
  | Dismiss jsval
  | Message jsval "obj option"
  | Error jsval "obj option"
  | Success jsval "obj option"
  | Info jsval "obj option"
  | Warning jsval "obj option"
  | Loading jsval "obj option"
  | Custom jsval "obj option"
  | SetHeight obj
  | RemoveHeight jsval
  | Reset

fun exec :: "op \<Rightarrow> state \<Rightarrow> state" where
  "exec (Create data) st = snd (create data st)"
| "exec (Dismiss tid) st = snd (dismiss tid st)"
| "exec (Message msg data) st = snd (message msg data st)"
| "exec (Error msg data) st = snd (error msg data st)"
| "exec (Success msg data) st = snd (success msg data st)"
| "exec (Info msg data) st = snd (info msg data st)"
| "exec (Warning msg data) st = snd (warning msg data st)"
| "exec (Loading msg data) st = snd (loading msg data st)"
| "exec (Custom component data) st = snd (custom component data st)"
| "exec (SetHeight data) st = setHeight data st"
| "exec (RemoveHeight tid) st = removeHeight tid st"
| "exec Reset st = reset st"

fun run :: "op list \<Rightarrow> state \<Rightarrow> state" where
  "run [] st = st"
| "run (x # xs) st = run xs (exec x st)"

text \<open>The store at module load: counter 0, both registries empty, nothing called.\<close>

definition init :: state where
  "init = \<lparr>toastsCounter = 0, toasts = [], heights = [], calls = []\<rparr>"

definition ids :: "state \<Rightarrow> jsval list" where
  "ids st = map (\<lambda>toast. getprop toast ''id'') (toasts st)"

definition toastIds :: "state \<Rightarrow> jsval list" where
  "toastIds st = map (\<lambda>el. getprop el ''toastId'') (heights st)"

section \<open>Auxiliary definitions\<close>

text \<open>
  The two objects \<^verbatim>\<open>create\<close> builds, named for the proofs: the image of a registry
  record under the \<^verbatim>\<open>map\<close> callback of the update branch, and the record that
  \<^verbatim>\<open>addToast\<close> receives.
\<close>

definition merge_toast :: "obj \<Rightarrow> jsval \<Rightarrow> obj \<Rightarrow> obj" where
  "merge_toast data tid toast =
     (if strict_eq (getprop toast ''id'') tid
      then (toast ++ data)(''id'' \<mapsto> tid, ''title'' \<mapsto> getprop data ''message'',
             ''dismissable'' \<mapsto>
               (if getprop data ''dismissable'' = Undefined then Bool True
                else getprop data ''dismissable''),
             ''type'' \<mapsto>
               (if getprop data ''type'' = Undefined then Str ''default'' else getprop data ''type''),
             ''updated'' \<mapsto> Bool True)
      else toast(''updated'' \<mapsto> Bool False))"

definition new_toast :: "obj \<Rightarrow> jsval \<Rightarrow> obj" where
  "new_toast data tid =
     (data(''message'' := None))(''id'' \<mapsto> tid, ''title'' \<mapsto> getprop data ''message'',
        ''dismissable'' \<mapsto>
          (if getprop data ''dismissable'' = Undefined then Bool True
           else getprop data ''dismissable''),
        ''type'' \<mapsto>
          (if getprop data ''type'' = Undefined then Str ''default'' else getprop data ''type''))"

text \<open>A registry of two notifications and an update of the older one, for the examples.\<close>

definition two_toasts :: state where
  "two_toasts =
     \<lparr>toastsCounter = 2,
      toasts =
        [[''id'' \<mapsto> Num 1, ''title'' \<mapsto> Str ''saved'', ''type'' \<mapsto> Str ''success'',
          ''dismissable'' \<mapsto> Bool True],
         [''id'' \<mapsto> Num 0, ''title'' \<mapsto> Str ''working'', ''type'' \<mapsto> Str ''loading'',
          ''dismissable'' \<mapsto> Bool False, ''duration'' \<mapsto> Num 4000]],
      heights = [], calls = []\<rparr>"

definition update_data :: obj where
  "update_data = [''id'' \<mapsto> Num 0, ''description'' \<mapsto> Str ''details'']"

text \<open>A height registry of two records, a record for a new toast and one for a known toast.\<close>

definition two_heights :: state where
  "two_heights =
     \<lparr>toastsCounter = 2, toasts = [],
      heights =
        [[''toastId'' \<mapsto> Num 1, ''height'' \<mapsto> Num 40],
         [''toastId'' \<mapsto> Num 0, ''height'' \<mapsto> Num 60]],
      calls = []\<rparr>"

definition new_height :: obj where
  "new_height = [''toastId'' \<mapsto> Num 2, ''height'' \<mapsto> Num 50]"

definition changed_height :: obj where
  "changed_height = [''toastId'' \<mapsto> Num 0, ''height'' \<mapsto> Num 75]"

text \<open>
  The invariant of the two registries: an id or \<^verbatim>\<open>toastId\<close> other than \<^verbatim>\<open>NaN\<close> occurs at
  most once. Then a run that creates, updates and dismisses, and a run that creates twice
  with the id \<^verbatim>\<open>NaN\<close> and sets a height twice with the \<^verbatim>\<open>toastId\<close> \<^verbatim>\<open>NaN\<close>.
\<close>

definition unique_ids :: "state \<Rightarrow> bool" where
  "unique_ids st =
     (distinct (filter (\<lambda>v. v \<noteq> NaN) (ids st)) \<and>
      distinct (filter (\<lambda>v. v \<noteq> NaN) (toastIds st)))"

definition nan_ops :: "op list" where
  "nan_ops =
     [Create [''id'' \<mapsto> NaN, ''message'' \<mapsto> Str ''a''],
      Create [''id'' \<mapsto> NaN, ''message'' \<mapsto> Str ''b''],
      SetHeight [''toastId'' \<mapsto> NaN, ''height'' \<mapsto> Num 40],
      SetHeight [''toastId'' \<mapsto> NaN, ''height'' \<mapsto> Num 50]]"

definition demo_ops :: "op list" where
  "demo_ops =
     [Message (Str ''hi'') None,
      Create [''id'' \<mapsto> Num 0, ''message'' \<mapsto> Str ''bye''],
      Custom (Ref 7) (Some [''id'' \<mapsto> Str ''c'']),
      Success (Str ''ok'') None,
      SetHeight [''toastId'' \<mapsto> Num 0, ''height'' \<mapsto> Num 40],
      SetHeight [''toastId'' \<mapsto> Num 0, ''height'' \<mapsto> Num 50],
      Dismiss (Str ''c'')]"

text \<open>
  For the examples of \<^verbatim>\<open>promise\<close>: an environment with a promise (1), a response with
  \<^verbatim>\<open>ok\<close> true (2), a completion callback (3), a response with \<^verbatim>\<open>ok\<close> false and
  status 500 (4), an error handler that is a function (5) and an error handler whose call
  throws (6); a store holding one loading notification with the id 0, and the closure of
  a \<^verbatim>\<open>promise\<close> call with that id; and some \<^verbatim>\<open>data\<close> arguments.
\<close>

definition demo_env :: env where
  "demo_env =
     \<lparr>objs = (\<lambda>r.
        if r = 1 then \<lparr>props = Map.empty, callable = None, isPromise = True\<rparr>
        else if r = 2 then \<lparr>props = [''ok'' \<mapsto> Bool True], callable = None, isPromise = False\<rparr>
        else if r = 3 then
          \<lparr>props = Map.empty, callable = Some (\<lambda>v. Inr Undefined), isPromise = False\<rparr>
        else if r = 4 then
          \<lparr>props = [''ok'' \<mapsto> Bool False, ''status'' \<mapsto> Num 500], callable = None,
           isPromise = False\<rparr>
        else if r = 5 then
          \<lparr>props = Map.empty, callable = Some (\<lambda>v. Inr (Str ''failed'')), isPromise = False\<rparr>
        else if r = 6 then
          \<lparr>props = Map.empty, callable = Some (\<lambda>v. Inl (Str ''thrown'')), isPromise = False\<rparr>
        else \<lparr>props = Map.empty, callable = None, isPromise = False\<rparr>),
      toString = (\<lambda>v. if v = Num 500 then ''500'' else ''undefined'')\<rparr>"

definition loading_toast :: state where
  "loading_toast =
     \<lparr>toastsCounter = 1,
      toasts = [[''id'' \<mapsto> Num 0, ''title'' \<mapsto> Str ''L'', ''type'' \<mapsto> Str ''loading'',
                 ''dismissable'' \<mapsto> Bool True]],
      heights = [], calls = []\<rparr>"

definition loading_closure :: closure where
  "loading_closure = \<lparr>pid = Num 0, shouldDismiss = True, awaited = Ref 1\<rparr>"

definition success_data :: obj where
  "success_data = [''loading'' \<mapsto> Str ''L'', ''success'' \<mapsto> Str ''S'', ''finally'' \<mapsto> Ref 3]"

definition literal_error_data :: obj where
  "literal_error_data = [''loading'' \<mapsto> Str ''L'', ''error'' \<mapsto> Str ''E'']"

definition error_data :: obj where
  "error_data = [''loading'' \<mapsto> Str ''L'', ''error'' \<mapsto> Ref 5]"

definition throwing_error_data :: obj where
  "throwing_error_data = [''loading'' \<mapsto> Str ''L'', ''error'' \<mapsto> Ref 6]"

definition loading_data :: obj where
  "loading_data = [''loading'' \<mapsto> Str ''L'']"

definition finally_data :: obj where
  "finally_data = [''loading'' \<mapsto> Str ''L'', ''finally'' \<mapsto> Ref 3]"

text \<open>The id, kind and title of every notification, in registry order.\<close>

definition summary :: "state \<Rightarrow> (jsval \<times> jsval \<times> jsval) list" where
  "summary st =
     map (\<lambda>toast. (getprop toast ''id'', getprop toast ''type'', getprop toast ''title''))
       (toasts st)"

section \<open>create\<close>

lemma getprop_upd [simp]: "getprop (ob(k \<mapsto> v)) k' = (if k' = k then v else getprop ob k')"
  by (simp add: getprop_def)

lemma getprop_empty [simp]: "getprop Map.empty k = Undefined"
  by (simp add: getprop_def)

lemma strict_eq_iff: "v \<noteq> NaN \<Longrightarrow> strict_eq u v = (u = v)"
  by (auto simp: strict_eq_def)

lemma strict_eq_NaN [simp]: "\<not> strict_eq u NaN" "\<not> strict_eq NaN v"
  by (auto simp: strict_eq_def)

lemma strict_eq_Undefined [simp]: "strict_eq u Undefined = (u = Undefined)"
  by (auto simp: strict_eq_def)

text \<open>The \<^verbatim>\<open>find\<close> of \<^verbatim>\<open>create\<close> succeeds when the id is in the registry and is not \<^verbatim>\<open>NaN\<close>.\<close>

lemma match_iff:
  "(\<exists>toast \<in> set (toasts st). strict_eq (getprop toast ''id'') tid) \<longleftrightarrow>
   tid \<in> set (ids st) \<and> tid \<noteq> NaN"
  by (auto simp: ids_def strict_eq_def)

lemma fst_assign_id:
  "fst (assign_id data st) =
     (if keeps_id (getprop data ''id'') then getprop data ''id'' else Num (toastsCounter st))"
  by (simp add: assign_id_def)

lemma toasts_assign_id: "toasts (snd (assign_id data st)) = toasts st"
  by (simp add: assign_id_def)

lemma heights_assign_id: "heights (snd (assign_id data st)) = heights st"
  by (simp add: assign_id_def)

lemma calls_assign_id: "calls (snd (assign_id data st)) = calls st"
  by (simp add: assign_id_def)

lemma counter_assign_id:
  "toastsCounter (snd (assign_id data st)) =
     (if keeps_id (getprop data ''id'') then toastsCounter st else toastsCounter st + 1)"
  by (simp add: assign_id_def)

text \<open>\<^verbatim>\<open>create\<close> as a case distinction on whether the assigned id is found.\<close>

lemma create_unfold:
  "create data st =
     (fst (assign_id data st),
      (snd (assign_id data st))\<lparr>toasts :=
         (if fst (assign_id data st) \<in> set (ids st) \<and> fst (assign_id data st) \<noteq> NaN
          then map (merge_toast data (fst (assign_id data st))) (toasts st)
          else new_toast data (fst (assign_id data st)) # toasts st)\<rparr>)"
proof -
  obtain tid st1 where a: "assign_id data st = (tid, st1)"
    by (cases "assign_id data st")
  have t: "toasts st1 = toasts st"
    using toasts_assign_id [of data st] a by simp
  show ?thesis
  proof (cases "tid \<in> set (ids st) \<and> tid \<noteq> NaN")
    case True
    then obtain found where
      "find (\<lambda>toast. strict_eq (getprop toast ''id'') tid) (toasts st) = Some found"
      using match_iff [of st tid]
      by (cases "find (\<lambda>toast. strict_eq (getprop toast ''id'') tid) (toasts st)")
        (auto simp: find_None_iff)
    with True show ?thesis
      unfolding create_def merge_toast_def [abs_def] by (simp add: a t Let_def)
  next
    case False
    then have "find (\<lambda>toast. strict_eq (getprop toast ''id'') tid) (toasts st) = None"
      using match_iff [of st tid] by (auto simp: find_None_iff)
    with False show ?thesis
      unfolding create_def new_toast_def by (simp add: a t Let_def addToast_def)
  qed
qed

lemma fst_create: "fst (create data st) = fst (assign_id data st)"
  by (simp add: create_unfold)

lemma id_merge_toast [simp]: "getprop (merge_toast data tid toast) ''id'' = getprop toast ''id''"
  by (simp add: merge_toast_def strict_eq_def)

lemma updated_merge_toast [simp]:
  "getprop (merge_toast data tid toast) ''updated'' = Bool (strict_eq (getprop toast ''id'') tid)"
  by (simp add: merge_toast_def)

lemma id_new_toast [simp]: "getprop (new_toast data tid) ''id'' = tid"
  by (simp add: new_toast_def)

lemma toasts_create:
  "create data st = (tid, st') \<Longrightarrow>
   toasts st' = (if tid \<in> set (ids st) \<and> tid \<noteq> NaN then map (merge_toast data tid) (toasts st)
                 else new_toast data tid # toasts st)"
  by (auto simp: create_unfold)

lemma heights_create: "create data st = (tid, st') \<Longrightarrow> heights st' = heights st"
  by (auto simp: create_unfold heights_assign_id)

lemma calls_create: "create data st = (tid, st') \<Longrightarrow> calls st' = calls st"
  by (auto simp: create_unfold calls_assign_id)

lemma ids_create:
  "create data st = (tid, st') \<Longrightarrow>
   ids st' = (if tid \<in> set (ids st) \<and> tid \<noteq> NaN then ids st else tid # ids st)"
  by (simp add: ids_def toasts_create o_def)

text \<open>A value that passes the filter occurs at one position when the filtered list is distinct.\<close>

lemma filter_distinct_once:
  "distinct (filter P ys) \<Longrightarrow> P t \<Longrightarrow> i < length ys \<Longrightarrow> j < length ys \<Longrightarrow>
   ys ! i = t \<Longrightarrow> ys ! j = t \<Longrightarrow> i = j"
proof (induction ys arbitrary: i j)
  case Nil
  then show ?case by simp
next
  case (Cons y ys)
  show ?case
  proof (cases i)
    case 0
    show ?thesis
    proof (cases j)
      case 0
      with \<open>i = 0\<close> show ?thesis by simp
    next
      case (Suc j')
      with Cons.prems \<open>i = 0\<close> have "y = t" "t \<in> set ys"
        by auto
      with Cons.prems(1,2) show ?thesis
        by simp
    qed
  next
    case (Suc i')
    show ?thesis
    proof (cases j)
      case 0
      with Cons.prems Suc have "y = t" "t \<in> set ys"
        by auto
      with Cons.prems(1,2) show ?thesis
        by simp
    next
      case (Suc j')
      have "distinct (filter P ys)"
        using Cons.prems(1) by (simp split: if_splits)
      with Cons.IH [of i' j'] Cons.prems \<open>i = Suc i'\<close> Suc show ?thesis
        by simp
    qed
  qed
qed

lemma unique_index:
  assumes "distinct (filter P (map f xs))" "P t" "t \<in> set (map f xs)"
  shows "\<exists>!i. i < length xs \<and> f (xs ! i) = t"
proof -
  from assms(3) obtain i where i: "i < length xs" "f (xs ! i) = t"
    by (auto simp: in_set_conv_nth)
  show ?thesis
  proof (rule ex1I [of _ i])
    show "i < length xs \<and> f (xs ! i) = t" using i by simp
  next
    fix j assume j: "j < length xs \<and> f (xs ! j) = t"
    then show "j = i"
      using filter_distinct_once [OF assms(1,2), of j i] i by simp
  qed
qed

text \<open>
  C1. When the id of a \<^verbatim>\<open>create\<close> call is \<^verbatim>\<open>===\<close> the id of a record of the registry
  (so it is not \<^verbatim>\<open>NaN\<close>), the registry keeps its length and the order of its ids;
  afterwards a record has \<^verbatim>\<open>updated\<close> true if its id is the call's and false otherwise,
  so exactly one record is marked when no id other than \<^verbatim>\<open>NaN\<close> occurs twice; the
  matching record is the old record overlaid with the properties of the call (outside the
  five properties \<^verbatim>\<open>create\<close> sets itself), and every other record changes in
  \<^verbatim>\<open>updated\<close> only.
\<close>

theorem create_existing_marks_and_merges:
  assumes c: "create data st = (tid, st')"
    and ex: "\<exists>toast \<in> set (toasts st). strict_eq (getprop toast ''id'') tid"
  shows "length (toasts st') = length (toasts st) \<and> ids st' = ids st \<and>
    (\<forall>i < length (toasts st).
       getprop (toasts st' ! i) ''updated'' = Bool (getprop (toasts st ! i) ''id'' = tid)) \<and>
    (\<forall>i < length (toasts st). getprop (toasts st ! i) ''id'' = tid \<longrightarrow>
       (\<forall>k. k \<notin> {''id'', ''title'', ''dismissable'', ''type'', ''updated''} \<longrightarrow>
          (toasts st' ! i) k = (toasts st ! i ++ data) k)) \<and>
    (\<forall>i < length (toasts st). getprop (toasts st ! i) ''id'' \<noteq> tid \<longrightarrow>
       (\<forall>k. k \<noteq> ''updated'' \<longrightarrow> (toasts st' ! i) k = (toasts st ! i) k)) \<and>
    (distinct (filter (\<lambda>v. v \<noteq> NaN) (ids st)) \<longrightarrow>
       (\<exists>!i. i < length (toasts st') \<and> getprop (toasts st' ! i) ''updated'' = Bool True))"
proof -
  have ex': "tid \<in> set (ids st)" and n: "tid \<noteq> NaN"
    using ex match_iff [of st tid] by simp_all
  have e: "strict_eq v tid = (v = tid)" for v
    using n by (rule strict_eq_iff)
  have t: "toasts st' = map (merge_toast data tid) (toasts st)"
    using toasts_create [OF c] ex' n by simp
  have l: "length (toasts st') = length (toasts st)"
    by (simp add: t)
  have i: "ids st' = ids st"
    using ids_create [OF c] ex' n by simp
  have u: "\<forall>i < length (toasts st).
       getprop (toasts st' ! i) ''updated'' = Bool (getprop (toasts st ! i) ''id'' = tid)"
    by (simp add: t e)
  have m: "\<forall>i < length (toasts st). getprop (toasts st ! i) ''id'' = tid \<longrightarrow>
       (\<forall>k. k \<notin> {''id'', ''title'', ''dismissable'', ''type'', ''updated''} \<longrightarrow>
          (toasts st' ! i) k = (toasts st ! i ++ data) k)"
    by (simp add: t merge_toast_def e)
  have o: "\<forall>i < length (toasts st). getprop (toasts st ! i) ''id'' \<noteq> tid \<longrightarrow>
       (\<forall>k. k \<noteq> ''updated'' \<longrightarrow> (toasts st' ! i) k = (toasts st ! i) k)"
    by (simp add: t merge_toast_def e)
  have d: "distinct (filter (\<lambda>v. v \<noteq> NaN) (ids st)) \<longrightarrow>
       (\<exists>!i. i < length (toasts st') \<and> getprop (toasts st' ! i) ''updated'' = Bool True)"
  proof
    assume "distinct (filter (\<lambda>v. v \<noteq> NaN) (ids st))"
    then have "\<exists>!i. i < length (toasts st) \<and> getprop (toasts st ! i) ''id'' = tid"
      using n ex' unfolding ids_def by (rule unique_index)
    moreover have "\<And>i. (i < length (toasts st') \<and> getprop (toasts st' ! i) ''updated'' = Bool True)
        \<longleftrightarrow> (i < length (toasts st) \<and> getprop (toasts st ! i) ''id'' = tid)"
      using u l by auto
    ultimately show "\<exists>!i. i < length (toasts st') \<and> getprop (toasts st' ! i) ''updated'' = Bool True"
      by simp
  qed
  from l i u m o d show ?thesis by blast
qed

theorem create_existing_marks_and_merges_witness:
  "create update_data two_toasts = (Num 0, snd (create update_data two_toasts)) \<and>
   (\<exists>toast \<in> set (toasts two_toasts). strict_eq (getprop toast ''id'') (Num 0)) \<and>
   distinct (filter (\<lambda>v. v \<noteq> NaN) (ids two_toasts)) \<and>
   length (toasts (snd (create update_data two_toasts))) = 2 \<and>
   ids (snd (create update_data two_toasts)) = [Num 1, Num 0] \<and>
   getprop (toasts (snd (create update_data two_toasts)) ! 0) ''updated'' = Bool False \<and>
   getprop (toasts (snd (create update_data two_toasts)) ! 1) ''updated'' = Bool True \<and>
   (toasts (snd (create update_data two_toasts)) ! 1) ''description'' = Some (Str ''details'') \<and>
   (toasts (snd (create update_data two_toasts)) ! 1) ''duration'' = Some (Num 4000) \<and>
   (toasts (snd (create update_data two_toasts)) ! 0) ''title'' = Some (Str ''saved'') \<and>
   (\<exists>!i. i < length (toasts (snd (create update_data two_toasts))) \<and>
      getprop (toasts (snd (create update_data two_toasts)) ! i) ''updated'' = Bool True)"
proof -
  have h1: "create update_data two_toasts = (Num 0, snd (create update_data two_toasts))"
    by (simp add: prod_eq_iff fst_create fst_assign_id update_data_def)
  have h2: "\<exists>toast \<in> set (toasts two_toasts). strict_eq (getprop toast ''id'') (Num 0)"
    by (simp add: two_toasts_def strict_eq_def)
  have h3: "distinct (filter (\<lambda>v. v \<noteq> NaN) (ids two_toasts))"
    by (simp add: ids_def two_toasts_def)
  have l: "length (toasts two_toasts) = 2"
    by (simp add: two_toasts_def)
  have g: "getprop (toasts two_toasts ! 0) ''id'' = Num 1" "getprop (toasts two_toasts ! 1) ''id'' = Num 0"
    "ids two_toasts = [Num 1, Num 0]"
    by (simp_all add: two_toasts_def ids_def)
  note T = create_existing_marks_and_merges [OF h1 h2]
  have k: "''description'' \<notin> {''id'', ''title'', ''dismissable'', ''type'', ''updated''}"
     "''duration'' \<notin> {''id'', ''title'', ''dismissable'', ''type'', ''updated''}"
     "''title'' \<noteq> ''updated''"
    by simp_all
  have d1: "(toasts (snd (create update_data two_toasts)) ! 1) ''description'' = (toasts two_toasts ! 1 ++ update_data) ''description''"
    using T l g k by simp
  have d2: "(toasts (snd (create update_data two_toasts)) ! 1) ''duration'' = (toasts two_toasts ! 1 ++ update_data) ''duration''"
    using T l g k by simp
  have d3: "(toasts (snd (create update_data two_toasts)) ! 0) ''title'' = (toasts two_toasts ! 0) ''title''"
    using T l g k by simp
  have e: "(toasts two_toasts ! 1 ++ update_data) ''description'' = Some (Str ''details'')"
    "(toasts two_toasts ! 1 ++ update_data) ''duration'' = Some (Num 4000)"
    "(toasts two_toasts ! 0) ''title'' = Some (Str ''saved'')"
    by (simp_all add: two_toasts_def update_data_def map_add_def)
  have u0: "getprop (toasts (snd (create update_data two_toasts)) ! 0) ''updated'' = Bool False"
    using T l g by simp
  have u1: "getprop (toasts (snd (create update_data two_toasts)) ! 1) ''updated'' = Bool True"
    using T l g by simp
  have n: "length (toasts (snd (create update_data two_toasts))) = 2"
    using T l by simp
  have i: "ids (snd (create update_data two_toasts)) = [Num 1, Num 0]"
    using T g by simp
  have x: "\<exists>!i. i < length (toasts (snd (create update_data two_toasts))) \<and>
      getprop (toasts (snd (create update_data two_toasts)) ! i) ''updated'' = Bool True"
    by (rule mp [OF T [THEN conjunct2, THEN conjunct2, THEN conjunct2, THEN conjunct2, THEN conjunct2] h3])
  have f1: "(toasts (snd (create update_data two_toasts)) ! 1) ''description'' = Some (Str ''details'')"
    using d1 e(1) by simp
  have f2: "(toasts (snd (create update_data two_toasts)) ! 1) ''duration'' = Some (Num 4000)"
    using d2 e(2) by simp
  have f3: "(toasts (snd (create update_data two_toasts)) ! 0) ''title'' = Some (Str ''saved'')"
    using d3 e(3) by simp
  show ?thesis
    by (intro conjI) (fact h1 h2 h3 n i u0 u1 f1 f2 f3 x)+
qed

text \<open>
  C10. When the id of a \<^verbatim>\<open>create\<close> call is \<^verbatim>\<open>===\<close> the id of a record, that record's \<^verbatim>\<open>title\<close>, \<^verbatim>\<open>dismissable\<close> and
  \<^verbatim>\<open>type\<close> come from the call alone, whatever the record held: the title is the call's
  \<^verbatim>\<open>message\<close> (\<^verbatim>\<open>undefined\<close> when omitted), \<^verbatim>\<open>dismissable\<close> is true when omitted and
  \<^verbatim>\<open>type\<close> is \<^verbatim>\<open>'default'\<close> when omitted.
\<close>

theorem create_existing_overwrites:
  assumes c: "create data st = (tid, st')"
    and i: "i < length (toasts st)" and m: "strict_eq (getprop (toasts st ! i) ''id'') tid"
  shows "getprop (toasts st' ! i) ''title'' = getprop data ''message'' \<and>
    getprop (toasts st' ! i) ''dismissable'' =
      (if getprop data ''dismissable'' = Undefined then Bool True else getprop data ''dismissable'') \<and>
    getprop (toasts st' ! i) ''type'' =
      (if getprop data ''type'' = Undefined then Str ''default'' else getprop data ''type'') \<and>
    (data ''message'' = None \<longrightarrow> getprop (toasts st' ! i) ''title'' = Undefined) \<and>
    (data ''dismissable'' = None \<longrightarrow> getprop (toasts st' ! i) ''dismissable'' = Bool True) \<and>
    (data ''type'' = None \<longrightarrow> getprop (toasts st' ! i) ''type'' = Str ''default'')"
proof -
  have "\<exists>toast \<in> set (toasts st). strict_eq (getprop toast ''id'') tid"
    using i m nth_mem [of i "toasts st"] by blast
  then have ex: "tid \<in> set (ids st) \<and> tid \<noteq> NaN"
    by (simp add: match_iff)
  have t: "toasts st' ! i = merge_toast data tid (toasts st ! i)"
    using toasts_create [OF c] ex i by simp
  have a: "data ''message'' = None \<Longrightarrow> getprop data ''message'' = Undefined"
    and b: "data ''dismissable'' = None \<Longrightarrow> getprop data ''dismissable'' = Undefined"
    and d: "data ''type'' = None \<Longrightarrow> getprop data ''type'' = Undefined"
    by (simp_all add: getprop_def)
  show ?thesis
    using a b d by (simp add: t merge_toast_def m)
qed

theorem create_existing_overwrites_witness:
  "create update_data two_toasts = (Num 0, snd (create update_data two_toasts)) \<and>
   1 < length (toasts two_toasts) \<and>
   strict_eq (getprop (toasts two_toasts ! 1) ''id'') (Num 0) \<and>
   update_data ''message'' = None \<and> update_data ''dismissable'' = None \<and>
   update_data ''type'' = None \<and>
   getprop (toasts two_toasts ! 1) ''title'' = Str ''working'' \<and>
   getprop (toasts two_toasts ! 1) ''dismissable'' = Bool False \<and>
   getprop (toasts two_toasts ! 1) ''type'' = Str ''loading'' \<and>
   getprop (toasts (snd (create update_data two_toasts)) ! 1) ''title'' = Undefined \<and>
   getprop (toasts (snd (create update_data two_toasts)) ! 1) ''dismissable'' = Bool True \<and>
   getprop (toasts (snd (create update_data two_toasts)) ! 1) ''type'' = Str ''default''"
proof -
  have h1: "create update_data two_toasts = (Num 0, snd (create update_data two_toasts))"
    by (simp add: prod_eq_iff fst_create fst_assign_id update_data_def)
  have h2: "1 < length (toasts two_toasts)"
    by (simp add: two_toasts_def)
  have h3: "strict_eq (getprop (toasts two_toasts ! 1) ''id'') (Num 0)"
    by (simp add: two_toasts_def strict_eq_def)
  have o: "update_data ''message'' = None" "update_data ''dismissable'' = None"
    "update_data ''type'' = None"
    by (simp_all add: update_data_def)
  have b: "getprop (toasts two_toasts ! 1) ''title'' = Str ''working''"
    "getprop (toasts two_toasts ! 1) ''dismissable'' = Bool False"
    "getprop (toasts two_toasts ! 1) ''type'' = Str ''loading''"
    by (simp_all add: two_toasts_def)
  note T = create_existing_overwrites [OF h1 h2 h3]
  have a1: "getprop (toasts (snd (create update_data two_toasts)) ! 1) ''title'' = Undefined"
    by (rule mp [OF T [THEN conjunct2, THEN conjunct2, THEN conjunct2, THEN conjunct1] o(1)])
  have a2: "getprop (toasts (snd (create update_data two_toasts)) ! 1) ''dismissable'' = Bool True"
    by (rule mp [OF T [THEN conjunct2, THEN conjunct2, THEN conjunct2, THEN conjunct2,
          THEN conjunct1] o(2)])
  have a3: "getprop (toasts (snd (create update_data two_toasts)) ! 1) ''type'' = Str ''default''"
    by (rule mp [OF T [THEN conjunct2, THEN conjunct2, THEN conjunct2, THEN conjunct2,
          THEN conjunct2] o(3)])
  show ?thesis
    by (intro conjI) (fact h1 h2 h3 o b a1 a2 a3)+
qed

section \<open>dismiss\<close>

text \<open>
  C5. \<^verbatim>\<open>dismiss()\<close> returns \<^verbatim>\<open>undefined\<close> and leaves the notification registry empty.
  \<^verbatim>\<open>dismiss(id)\<close> returns the id and keeps, in their order and unchanged, the records
  whose id is not \<^verbatim>\<open>===\<close> the argument: the result is that filter of the registry, a
  subsequence of it, and a record of the registry is in the result if and only if its id
  is not \<^verbatim>\<open>===\<close> the argument. For an argument other than \<^verbatim>\<open>NaN\<close> these are the records
  whose id differs from the argument; nothing is \<^verbatim>\<open>===\<close> \<^verbatim>\<open>NaN\<close>, so \<^verbatim>\<open>dismiss(NaN)\<close>
  keeps every record. Neither call touches the heights or the counter.
\<close>

theorem dismiss_removes_matching:
  "fst (dismiss Undefined st) = Undefined \<and> toasts (snd (dismiss Undefined st)) = [] \<and>
   (tid \<noteq> Undefined \<longrightarrow>
      fst (dismiss tid st) = tid \<and>
      toasts (snd (dismiss tid st)) =
        filter (\<lambda>toast. \<not> strict_eq (getprop toast ''id'') tid) (toasts st) \<and>
      subseq (toasts (snd (dismiss tid st))) (toasts st) \<and>
      (\<forall>toast \<in> set (toasts st).
         toast \<in> set (toasts (snd (dismiss tid st))) \<longleftrightarrow>
           \<not> strict_eq (getprop toast ''id'') tid) \<and>
      (tid \<noteq> NaN \<longrightarrow>
         toasts (snd (dismiss tid st)) =
           filter (\<lambda>toast. getprop toast ''id'' \<noteq> tid) (toasts st) \<and>
         (\<forall>toast \<in> set (toasts st).
            toast \<in> set (toasts (snd (dismiss tid st))) \<longleftrightarrow> getprop toast ''id'' \<noteq> tid)) \<and>
      (tid = NaN \<longrightarrow> toasts (snd (dismiss tid st)) = toasts st)) \<and>
   heights (snd (dismiss tid st)) = heights st \<and>
   toastsCounter (snd (dismiss tid st)) = toastsCounter st"
proof -
  have e: "tid \<noteq> NaN \<Longrightarrow> strict_eq v tid = (v = tid)" for v
    by (rule strict_eq_iff)
  show ?thesis
    by (auto simp: dismiss_def e)
qed

theorem dismiss_removes_matching_witness:
  "Num 0 \<noteq> Undefined \<and> Num 0 \<noteq> NaN \<and> fst (dismiss (Num 0) two_toasts) = Num 0 \<and>
   ids two_toasts = [Num 1, Num 0] \<and>
   ids (snd (dismiss (Num 0) two_toasts)) = [Num 1] \<and>
   toasts (snd (dismiss (Num 0) two_toasts)) = [toasts two_toasts ! 0] \<and>
   toasts (snd (dismiss Undefined two_toasts)) = [] \<and>
   NaN \<noteq> Undefined \<and> toasts (snd (dismiss NaN two_toasts)) = toasts two_toasts"
proof -
  have n: "Num 0 \<noteq> Undefined" and n': "Num 0 \<noteq> NaN" and n'': "NaN \<noteq> Undefined"
    by simp_all
  note T = dismiss_removes_matching [of two_toasts "Num 0"]
  note D = mp [OF T [THEN conjunct2, THEN conjunct2, THEN conjunct1] n]
  have f: "fst (dismiss (Num 0) two_toasts) = Num 0"
    by (rule D [THEN conjunct1])
  have t: "toasts (snd (dismiss (Num 0) two_toasts)) =
      filter (\<lambda>toast. getprop toast ''id'' \<noteq> Num 0) (toasts two_toasts)"
    by (rule mp [OF D [THEN conjunct2, THEN conjunct2, THEN conjunct2, THEN conjunct2,
          THEN conjunct1] n', THEN conjunct1])
  have i0: "ids two_toasts = [Num 1, Num 0]"
    by (simp add: ids_def two_toasts_def)
  have t1: "toasts (snd (dismiss (Num 0) two_toasts)) = [toasts two_toasts ! 0]"
    unfolding t by (simp add: two_toasts_def)
  have i1: "ids (snd (dismiss (Num 0) two_toasts)) = [Num 1]"
    unfolding ids_def t1 by (simp add: two_toasts_def)
  have e: "toasts (snd (dismiss Undefined two_toasts)) = []"
    by (rule T [THEN conjunct2, THEN conjunct1])
  note U = dismiss_removes_matching [of two_toasts NaN]
  have k: "toasts (snd (dismiss NaN two_toasts)) = toasts two_toasts"
    by (rule mp [OF mp [OF U [THEN conjunct2, THEN conjunct2, THEN conjunct1] n'',
          THEN conjunct2, THEN conjunct2, THEN conjunct2, THEN conjunct2, THEN conjunct2] refl])
  show ?thesis
    by (intro conjI) (fact n n' f i0 i1 t1 e n'' k)+
qed

section \<open>setHeight\<close>

text \<open>The \<^verbatim>\<open>find\<close> of \<^verbatim>\<open>setHeight\<close> succeeds when the \<^verbatim>\<open>toastId\<close> is there and is not \<^verbatim>\<open>NaN\<close>.\<close>

lemma find_toastId:
  "find (\<lambda>el. strict_eq (getprop el ''toastId'') t) (heights st) = None \<longleftrightarrow>
   t \<notin> set (toastIds st) \<or> t = NaN"
  by (auto simp: find_None_iff toastIds_def strict_eq_def)

lemma heights_setHeight:
  "heights (setHeight data st) =
     (if getprop data ''toastId'' \<in> set (toastIds st) \<and> getprop data ''toastId'' \<noteq> NaN
      then map (\<lambda>el. if getprop el ''toastId'' = getprop data ''toastId'' then data else el)
             (heights st)
      else data # heights st)"
proof (cases "find (\<lambda>el. strict_eq (getprop el ''toastId'') (getprop data ''toastId''))
    (heights st)")
  case None
  then show ?thesis
    using find_toastId [of "getprop data ''toastId''" st] by (auto simp: setHeight_def)
next
  case (Some a)
  then have n: "getprop data ''toastId'' \<in> set (toastIds st)" "getprop data ''toastId'' \<noteq> NaN"
    using find_toastId [of "getprop data ''toastId''" st] by auto
  have "strict_eq v (getprop data ''toastId'') = (v = getprop data ''toastId'')" for v
    using n(2) by (rule strict_eq_iff)
  with Some n show ?thesis
    by (simp add: setHeight_def)
qed

lemma toastIds_setHeight:
  "toastIds (setHeight data st) =
     (if getprop data ''toastId'' \<in> set (toastIds st) \<and> getprop data ''toastId'' \<noteq> NaN
      then toastIds st
      else getprop data ''toastId'' # toastIds st)"
proof -
  have "map (\<lambda>el. getprop el ''toastId'')
          (map (\<lambda>el. if getprop el ''toastId'' = getprop data ''toastId'' then data else el) xs) =
        map (\<lambda>el. getprop el ''toastId'') xs" for xs
    by (induction xs) auto
  then show ?thesis
    by (simp add: toastIds_def heights_setHeight)
qed

text \<open>
  C8. \<^verbatim>\<open>setHeight\<close> with a \<^verbatim>\<open>toastId\<close> that no height record has (or with \<^verbatim>\<open>NaN\<close>, which
  \<^verbatim>\<open>===\<close> finds in no record) puts the record in front of the unchanged registry. With
  a \<^verbatim>\<open>toastId\<close> the registry has, the registry keeps its length and the order of its
  \<^verbatim>\<open>toastId\<close>s, the record at a position with that \<^verbatim>\<open>toastId\<close> becomes the new record
  and every other position keeps its record.
\<close>

theorem setHeight_prepends_or_replaces:
  "(getprop data ''toastId'' \<notin> set (toastIds st) \<or> getprop data ''toastId'' = NaN \<longrightarrow>
      heights (setHeight data st) = data # heights st) \<and>
   (getprop data ''toastId'' \<in> set (toastIds st) \<and> getprop data ''toastId'' \<noteq> NaN \<longrightarrow>
      length (heights (setHeight data st)) = length (heights st) \<and>
      toastIds (setHeight data st) = toastIds st \<and>
      (\<forall>i < length (heights st).
         heights (setHeight data st) ! i =
           (if getprop (heights st ! i) ''toastId'' = getprop data ''toastId'' then data
            else heights st ! i))) \<and>
   toasts (setHeight data st) = toasts st"
proof -
  have "toasts (setHeight data st) = toasts st"
    by (simp add: setHeight_def split: option.splits)
  then show ?thesis
    by (auto simp: heights_setHeight toastIds_setHeight)
qed

theorem setHeight_prepends_or_replaces_witness:
  "getprop new_height ''toastId'' \<notin> set (toastIds two_heights) \<and>
   heights (setHeight new_height two_heights) = new_height # heights two_heights \<and>
   getprop changed_height ''toastId'' \<in> set (toastIds two_heights) \<and>
   getprop changed_height ''toastId'' \<noteq> NaN \<and>
   length (heights (setHeight changed_height two_heights)) = 2 \<and>
   toastIds (setHeight changed_height two_heights) = [Num 1, Num 0] \<and>
   heights (setHeight changed_height two_heights) ! 0 = heights two_heights ! 0 \<and>
   heights (setHeight changed_height two_heights) ! 1 = changed_height"
proof -
  have i: "toastIds two_heights = [Num 1, Num 0]"
    by (simp add: toastIds_def two_heights_def)
  have a: "getprop new_height ''toastId'' \<notin> set (toastIds two_heights)"
    by (simp add: i new_height_def)
  have b: "getprop changed_height ''toastId'' \<in> set (toastIds two_heights)"
    and b': "getprop changed_height ''toastId'' \<noteq> NaN"
    by (simp_all add: i changed_height_def)
  have l: "length (heights two_heights) = 2"
    by (simp add: two_heights_def)
  have g: "getprop (heights two_heights ! 0) ''toastId'' = Num 1"
    "getprop (heights two_heights ! 1) ''toastId'' = Num 0"
    "getprop changed_height ''toastId'' = Num 0"
    by (simp_all add: two_heights_def changed_height_def)
  note N = setHeight_prepends_or_replaces [of new_height two_heights]
  note C = setHeight_prepends_or_replaces [of changed_height two_heights]
  have n1: "heights (setHeight new_height two_heights) = new_height # heights two_heights"
    by (rule mp [OF N [THEN conjunct1] disjI1 [OF a]])
  note C2 = mp [OF C [THEN conjunct2, THEN conjunct1] conjI [OF b b']]
  have c1: "length (heights (setHeight changed_height two_heights)) = 2"
    using C2 l by simp
  have c2: "toastIds (setHeight changed_height two_heights) = [Num 1, Num 0]"
    using C2 i by simp
  have c3: "heights (setHeight changed_height two_heights) ! 0 = heights two_heights ! 0"
    using C2 l g by simp
  have c4: "heights (setHeight changed_height two_heights) ! 1 = changed_height"
    using C2 l g by simp
  show ?thesis
    by (intro conjI) (fact a b b' n1 c1 c2 c3 c4)+
qed

section \<open>Unique ids\<close>

lemma ids_dismiss:
  "ids (snd (dismiss tid st)) =
     (if tid = Undefined then [] else filter (\<lambda>i. \<not> strict_eq i tid) (ids st))"
  by (simp add: dismiss_def ids_def filter_map o_def)

lemma toastIds_dismiss: "toastIds (snd (dismiss tid st)) = toastIds st"
  by (simp add: dismiss_def toastIds_def)

lemma toastIds_create: "toastIds (snd (create data st)) = toastIds st"
  using heights_create [of data st] by (simp add: toastIds_def prod_eq_iff)

lemma distinct_ids_create:
  "distinct (filter (\<lambda>v. v \<noteq> NaN) (ids st)) \<Longrightarrow>
   distinct (filter (\<lambda>v. v \<noteq> NaN) (ids (snd (create data st))))"
  using ids_create [of data st "fst (create data st)" "snd (create data st)"] by simp

lemma custom_unfold:
  "custom component data st =
     (if truthy (getprop (spread data) ''id'')
      then (getprop (spread data) ''id'',
            snd (create ([''component'' \<mapsto> component, ''id'' \<mapsto> getprop (spread data) ''id'']
                           ++ spread data) st))
      else (Num (toastsCounter st),
            snd (create ([''component'' \<mapsto> component, ''id'' \<mapsto> Num (toastsCounter st)]
                           ++ spread data) (st\<lparr>toastsCounter := toastsCounter st + 1\<rparr>))))"
  by (simp add: custom_def Let_def split: prod.splits)

lemma distinct_ids_custom:
  assumes "distinct (filter (\<lambda>v. v \<noteq> NaN) (ids st))"
  shows "distinct (filter (\<lambda>v. v \<noteq> NaN) (ids (snd (custom component data st))))"
proof -
  have "ids (st\<lparr>toastsCounter := toastsCounter st + 1\<rparr>) = ids st"
    by (simp add: ids_def)
  with assms have
    "distinct (filter (\<lambda>v. v \<noteq> NaN) (ids (st\<lparr>toastsCounter := toastsCounter st + 1\<rparr>)))"
    by simp
  with assms show ?thesis
    by (simp add: custom_unfold distinct_ids_create)
qed

lemma toastIds_custom: "toastIds (snd (custom component data st)) = toastIds st"
  by (simp add: custom_unfold toastIds_create) (simp add: toastIds_def)

lemma distinct_toastIds_setHeight:
  "distinct (filter (\<lambda>v. v \<noteq> NaN) (toastIds st)) \<Longrightarrow>
   distinct (filter (\<lambda>v. v \<noteq> NaN) (toastIds (setHeight data st)))"
  by (simp add: toastIds_setHeight)

lemma ids_setHeight: "ids (setHeight data st) = ids st"
  by (simp add: ids_def setHeight_def split: option.splits)

lemma toastIds_removeHeight:
  "toastIds (removeHeight tid st) = filter (\<lambda>i. \<not> strict_eq i tid) (toastIds st)"
  by (simp add: removeHeight_def toastIds_def filter_map o_def)

lemma ids_removeHeight: "ids (removeHeight tid st) = ids st"
  by (simp add: ids_def removeHeight_def)

lemma ids_reset: "ids (reset st) = []"
  by (simp add: ids_def reset_def)

lemma toastIds_reset: "toastIds (reset st) = []"
  by (simp add: toastIds_def reset_def)

lemma distinct_filter_conj:
  "distinct (filter P xs) \<Longrightarrow> distinct (filter (\<lambda>x. Q x \<and> P x) xs)"
  by (induction xs) (auto split: if_splits)

lemma unique_ids_exec: "unique_ids st \<Longrightarrow> unique_ids (exec x st)"
  unfolding unique_ids_def
proof (cases x)
  case (Dismiss tid)
  assume "distinct (filter (\<lambda>v. v \<noteq> NaN) (ids st)) \<and>
    distinct (filter (\<lambda>v. v \<noteq> NaN) (toastIds st))"
  then show "distinct (filter (\<lambda>v. v \<noteq> NaN) (ids (exec x st))) \<and>
    distinct (filter (\<lambda>v. v \<noteq> NaN) (toastIds (exec x st)))"
    by (simp add: Dismiss ids_dismiss toastIds_dismiss distinct_filter_conj)
qed (simp_all add: distinct_filter_conj distinct_ids_create toastIds_create message_def error_def success_def
      info_def warning_def loading_def distinct_ids_custom toastIds_custom
      distinct_toastIds_setHeight ids_setHeight toastIds_removeHeight ids_removeHeight
      ids_reset toastIds_reset)

lemma unique_ids_run: "unique_ids st \<Longrightarrow> unique_ids (run xs st)"
  by (induction xs arbitrary: st) (simp_all add: unique_ids_exec)

lemmas run_eval =
  demo_ops_def nan_ops_def init_def ids_def toastIds_def message_def success_def spread_def
  custom_unfold create_unfold assign_id_def dismiss_def setHeight_def merge_toast_def
  new_toast_def strict_eq_def

text \<open>
  C2, as stated, fails: \<^verbatim>\<open>create\<close> keeps the id \<^verbatim>\<open>NaN\<close> (its type is \<^verbatim>\<open>'number'\<close>) and
  never finds it again, so two calls \<^verbatim>\<open>create({id: NaN, ...})\<close> on the empty store leave
  two records with the id \<^verbatim>\<open>NaN\<close>, and two calls of \<^verbatim>\<open>setHeight\<close> with the \<^verbatim>\<open>toastId\<close>
  \<^verbatim>\<open>NaN\<close> leave two height records.
\<close>

theorem registries_unique_ids_counterexample:
  "toasts init = [] \<and> heights init = [] \<and>
   ids (run nan_ops init) = [NaN, NaN] \<and> toastIds (run nan_ops init) = [NaN, NaN] \<and>
   \<not> distinct (ids (run nan_ops init)) \<and> \<not> distinct (toastIds (run nan_ops init))"
proof -
  have i: "ids (run nan_ops init) = [NaN, NaN]"
    by (simp add: run_eval)
  have t: "toastIds (run nan_ops init) = [NaN, NaN]"
    by (simp add: run_eval)
  show ?thesis
    unfolding i t by (simp add: init_def)
qed

text \<open>
  C2, amended. Starting with both registries empty, after any sequence of \<^verbatim>\<open>create\<close>,
  \<^verbatim>\<open>dismiss\<close>, the typed wrappers, \<^verbatim>\<open>custom\<close>, \<^verbatim>\<open>setHeight\<close>, \<^verbatim>\<open>removeHeight\<close> and
  \<^verbatim>\<open>reset\<close>, and after every prefix of it, no two notifications have the same id other
  than \<^verbatim>\<open>NaN\<close> and no two height records the same \<^verbatim>\<open>toastId\<close> other than \<^verbatim>\<open>NaN\<close>: the
  ids that are not \<^verbatim>\<open>NaN\<close> are pairwise different, and so are the \<^verbatim>\<open>toastId\<close>s.
\<close>

theorem registries_have_unique_ids:
  assumes "toasts st = []" and "heights st = []"
  shows "distinct (filter (\<lambda>v. v \<noteq> NaN) (ids (run (take n ops) st))) \<and>
    distinct (filter (\<lambda>v. v \<noteq> NaN) (toastIds (run (take n ops) st)))"
proof -
  have "unique_ids st"
    using assms by (simp add: unique_ids_def ids_def toastIds_def)
  then have "unique_ids (run (take n ops) st)"
    by (rule unique_ids_run)
  then show ?thesis
    by (simp add: unique_ids_def)
qed

theorem registries_have_unique_ids_witness:
  "toasts init = [] \<and> heights init = [] \<and>
   ids (run demo_ops init) = [Num 1, Num 0] \<and> toastIds (run demo_ops init) = [Num 0] \<and>
   distinct (filter (\<lambda>v. v \<noteq> NaN) (ids (run (take 7 demo_ops) init))) \<and>
   distinct (filter (\<lambda>v. v \<noteq> NaN) (toastIds (run (take 7 demo_ops) init))) \<and>
   distinct (filter (\<lambda>v. v \<noteq> NaN) (ids (run (take 3 demo_ops) init))) \<and>
   distinct (filter (\<lambda>v. v \<noteq> NaN) (ids (run (take 4 nan_ops) init)))"
proof -
  have h1: "toasts init = []" and h2: "heights init = []"
    by (simp_all add: init_def)
  have i: "ids (run demo_ops init) = [Num 1, Num 0]"
    by (simp add: run_eval)
  have t: "toastIds (run demo_ops init) = [Num 0]"
    by (simp add: run_eval)
  note T = registries_have_unique_ids [OF h1 h2]
  have a: "distinct (filter (\<lambda>v. v \<noteq> NaN) (ids (run (take 7 demo_ops) init)))"
    by (rule T [THEN conjunct1])
  have b: "distinct (filter (\<lambda>v. v \<noteq> NaN) (toastIds (run (take 7 demo_ops) init)))"
    by (rule T [THEN conjunct2])
  have c: "distinct (filter (\<lambda>v. v \<noteq> NaN) (ids (run (take 3 demo_ops) init)))"
    by (rule T [THEN conjunct1])
  have d: "distinct (filter (\<lambda>v. v \<noteq> NaN) (ids (run (take 4 nan_ops) init)))"
    by (rule T [THEN conjunct1])
  show ?thesis
    by (intro conjI) (fact h1 h2 i t a b c d)+
qed

section \<open>Properties of promise\<close>

lemma toasts_call: "toasts (snd (call e f arg st)) = toasts st"
  by (simp add: call_def split: jsval.splits option.splits)

lemma heights_call: "heights (snd (call e f arg st)) = heights st"
  by (simp add: call_def split: jsval.splits option.splits)

lemma counter_call: "toastsCounter (snd (call e f arg st)) = toastsCounter st"
  by (simp add: call_def split: jsval.splits option.splits)

lemma calls_call:
  "calls (snd (call e f arg st)) = (if is_function e f then calls st @ [(f, arg)] else calls st)"
  by (simp add: call_def is_function_def split: jsval.splits option.splits)

lemma call_function:
  "callable (objs e r) = Some g \<Longrightarrow>
   call e (Ref r) arg st = (g arg, st\<lparr>calls := calls st @ [(Ref r, arg)]\<rparr>)"
  by (simp add: call_def)

lemma set_calls_create: "calls (snd (create data st)) = calls st"
  using calls_create [of data st] by (simp add: prod_eq_iff)

text \<open>What \<^verbatim>\<open>create\<close> leaves in the registry under the id it returns.\<close>

lemma create_has_toast:
  assumes c: "create data st = (tid, st')"
  shows "\<exists>toast \<in> set (toasts st'). getprop toast ''id'' = tid \<and>
           getprop toast ''title'' = getprop data ''message'' \<and>
           getprop toast ''type'' =
             (if getprop data ''type'' = Undefined then Str ''default'' else getprop data ''type'')"
proof (cases "tid \<in> set (ids st) \<and> tid \<noteq> NaN")
  case True
  then obtain old where o: "old \<in> set (toasts st)" "getprop old ''id'' = tid"
    by (auto simp: ids_def)
  have "merge_toast data tid old \<in> set (toasts st')"
    using toasts_create [OF c] True o by simp
  moreover have "getprop (merge_toast data tid old) ''title'' = getprop data ''message''"
    "getprop (merge_toast data tid old) ''type'' =
       (if getprop data ''type'' = Undefined then Str ''default'' else getprop data ''type'')"
    "getprop (merge_toast data tid old) ''id'' = tid"
    using o True by (simp_all add: merge_toast_def strict_eq_def)
  ultimately show ?thesis by blast
next
  case False
  have "new_toast data tid \<in> set (toasts st')"
    using toasts_create [OF c] False by simp
  moreover have "getprop (new_toast data tid) ''title'' = getprop data ''message''"
    "getprop (new_toast data tid) ''type'' =
       (if getprop data ''type'' = Undefined then Str ''default'' else getprop data ''type'')"
    "getprop (new_toast data tid) ''id'' = tid"
    by (simp_all add: new_toast_def)
  ultimately show ?thesis by blast
qed

lemma then_catch_Rejected: "then_catch e data (Rejected err) c st = catch_cb e data err c st"
  by (simp add: then_catch_def)

lemma finally_cb_unfold:
  "finally_cb e data c st =
     (if getprop data ''finally'' = Undefined \<or> getprop data ''finally'' = Null then None
      else (case fst (call e (getprop data ''finally'') Undefined
                        (if shouldDismiss c then snd (dismiss (pid c) st) else st)) of
              Inl ex \<Rightarrow> Some ex | Inr v \<Rightarrow> None),
      (if shouldDismiss c then c\<lparr>pid := Undefined\<rparr> else c),
      (if getprop data ''finally'' = Undefined \<or> getprop data ''finally'' = Null
       then (if shouldDismiss c then snd (dismiss (pid c) st) else st)
       else snd (call e (getprop data ''finally'') Undefined
                   (if shouldDismiss c then snd (dismiss (pid c) st) else st))))"
  by (simp add: finally_cb_def Let_def case_prod_beta split: sum.splits)

lemma toasts_finally_cb:
  "toasts (snd (snd (finally_cb e data c st))) =
     (if shouldDismiss c then toasts (snd (dismiss (pid c) st)) else toasts st)"
  by (simp add: finally_cb_unfold toasts_call)

lemma set_toasts_dismiss: "set (toasts (snd (dismiss tid st))) \<subseteq> set (toasts st)"
  by (auto simp: dismiss_def)

lemma calls_dismiss: "calls (snd (dismiss tid st)) = calls st"
  by (simp add: dismiss_def)

lemma calls_finally_cb:
  "calls (snd (snd (finally_cb e data c st))) =
     (if is_function e (getprop data ''finally'')
      then calls st @ [(getprop data ''finally'', Undefined)] else calls st)"
proof -
  have n: "is_function e v \<Longrightarrow> v \<noteq> Undefined \<and> v \<noteq> Null" for v
    by (auto simp: is_function_def)
  have "calls (snd (snd (finally_cb e data c st))) =
       (if getprop data ''finally'' = Undefined \<or> getprop data ''finally'' = Null
        then calls st
        else calls (snd (call e (getprop data ''finally'') Undefined
               (if shouldDismiss c then snd (dismiss (pid c) st) else st))))"
    by (simp add: finally_cb_unfold calls_dismiss)
  then show ?thesis
    using n [of "getprop data ''finally''"] by (auto simp: calls_call calls_dismiss)
qed

lemma settle_unfold:
  "settle e data outcome c st =
     ((case fst (finally_cb e data (fst (snd (then_catch e data outcome c st)))
                   (snd (snd (then_catch e data outcome c st)))) of
         Some ex \<Rightarrow> Some ex
       | None \<Rightarrow> fst (then_catch e data outcome c st)),
      snd (finally_cb e data (fst (snd (then_catch e data outcome c st)))
             (snd (snd (then_catch e data outcome c st)))))"
  by (simp add: settle_def Let_def case_prod_beta)

lemma catch_cb_literal:
  assumes "getprop data ''error'' \<noteq> Undefined" "\<not> is_function e (getprop data ''error'')"
  shows "catch_cb e data err c st =
     (None, c\<lparr>shouldDismiss := False\<rparr>,
      snd (create [''id'' \<mapsto> pid c, ''type'' \<mapsto> Str ''error'',
                   ''message'' \<mapsto> getprop data ''error''] st))"
  using assms by (simp add: catch_cb_def handler_message_def Let_def)

lemma catch_cb_function:
  assumes "getprop data ''error'' = Ref r" "callable (objs e r) = Some g" "g err = Inr m"
  shows "catch_cb e data err c st =
     (None, c\<lparr>shouldDismiss := False\<rparr>,
      snd (create [''id'' \<mapsto> pid c, ''type'' \<mapsto> Str ''error'', ''message'' \<mapsto> m]
             (st\<lparr>calls := calls st @ [(Ref r, err)]\<rparr>)))"
  using assms by (simp add: catch_cb_def handler_message_def Let_def is_function_def call_function)

lemma catch_cb_absent:
  "getprop data ''error'' = Undefined \<Longrightarrow> catch_cb e data err c st = (None, c, st)"
  by (simp add: catch_cb_def)


lemma promise_unfold:
  "promise e prom (Some d) st =
     (let c = (if getprop d ''loading'' \<noteq> Undefined
               then create (d(''promise'' \<mapsto> prom, ''type'' \<mapsto> Str ''loading'',
                              ''message'' \<mapsto> getprop d ''loading'')) st
               else (Undefined, st));
          p = (if is_promise e prom then (Inr prom, snd c) else call e prom Undefined (snd c))
      in (case fst p of
            Inl ex \<Rightarrow> Inl ex
          | Inr pv \<Rightarrow>
              Inr (fst c, Some \<lparr>pid = fst c, shouldDismiss = (fst c \<noteq> Undefined), awaited = pv\<rparr>),
          snd p))"
  by (simp add: promise_def Let_def case_prod_beta split: sum.splits)







lemma then_catch_unfold:
  "then_catch e data outcome c st =
     (case outcome of
        Resolved response \<Rightarrow>
          (case fst (then_cb e data response c st) of
             Some err \<Rightarrow>
               catch_cb e data err (fst (snd (then_cb e data response c st)))
                 (snd (snd (then_cb e data response c st)))
           | None \<Rightarrow> then_cb e data response c st)
      | Rejected err \<Rightarrow> catch_cb e data err c st)"
  by (cases outcome)
    (auto simp: then_catch_def Let_def case_prod_beta prod_eq_iff split: option.splits)





lemmas promise_eval =
  promise_unfold create_unfold assign_id_def ids_def init_def is_promise_def is_function_def
  demo_env_def merge_toast_def new_toast_def Let_def summary_def then_catch_unfold then_cb_def
  catch_cb_def http_failure_def member_def handler_message_def call_def settle_unfold
  finally_cb_unfold dismiss_def loading_closure_def loading_toast_def success_data_def
  literal_error_data_def error_data_def loading_data_def finally_data_def
  throwing_error_data_def strict_eq_def



lemma error_toast_after_create:
  "\<exists>toast \<in> set (toasts (snd (create [''id'' \<mapsto> i, ''type'' \<mapsto> Str k, ''message'' \<mapsto> m] st))).
     getprop toast ''id'' = (if keeps_id i then i else Num (toastsCounter st)) \<and>
     getprop toast ''type'' = Str k \<and> getprop toast ''title'' = m"
proof -
  let ?d = "[''id'' \<mapsto> i, ''type'' \<mapsto> Str k, ''message'' \<mapsto> m]"
  have c: "create ?d st = (fst (create ?d st), snd (create ?d st))"
    by simp
  have f: "fst (create ?d st) = (if keeps_id i then i else Num (toastsCounter st))"
    by (simp add: fst_create fst_assign_id)
  from create_has_toast [OF c] f show ?thesis
    by auto
qed

text \<open>
  C6, as stated, fails where \<^verbatim>\<open>data.error\<close> is supplied, is a function for \<^verbatim>\<open>typeof\<close>, and
  its call on the rejection value throws: the \<^verbatim>\<open>catch\<close> callback has cleared
  \<^verbatim>\<open>shouldDismiss\<close> and leaves at the call, so \<^verbatim>\<open>create\<close> is not reached. After
  \<^verbatim>\<open>promise(p, {loading: 'L', error: f})\<close> with such an \<^verbatim>\<open>f\<close> and a rejecting \<^verbatim>\<open>p\<close>, the
  handler has been called with the rejection value, the chain ends rejected with what the
  handler threw, and the registry still holds the loading notification and nothing of
  kind \<^verbatim>\<open>'error'\<close>.
\<close>

theorem rejection_with_throwing_handler_counterexample:
  "getprop throwing_error_data ''error'' \<noteq> Undefined \<and>
   is_function demo_env (getprop throwing_error_data ''error'') \<and>
   fst (promise demo_env (Ref 1) (Some throwing_error_data) init) =
     Inr (Num 0, Some loading_closure) \<and>
   summary (snd (promise demo_env (Ref 1) (Some throwing_error_data) init)) =
     [(Num 0, Str ''loading'', Str ''L'')] \<and>
   fst (settle demo_env throwing_error_data (Rejected (Str ''boom'')) loading_closure
     (snd (promise demo_env (Ref 1) (Some throwing_error_data) init))) = Some (Str ''thrown'') \<and>
   calls (snd (snd (settle demo_env throwing_error_data (Rejected (Str ''boom''))
     loading_closure (snd (promise demo_env (Ref 1) (Some throwing_error_data) init))))) =
     [(Ref 6, Str ''boom'')] \<and>
   summary (snd (snd (settle demo_env throwing_error_data (Rejected (Str ''boom''))
     loading_closure (snd (promise demo_env (Ref 1) (Some throwing_error_data) init))))) =
     [(Num 0, Str ''loading'', Str ''L'')]"
  by (simp add: promise_eval)

text \<open>
  C6, amended. When the tracked promise rejects: with an error handler that is not a
  function, the registry afterwards holds a notification of kind \<^verbatim>\<open>'error'\<close> whose title
  is the handler, under the id of the \<^verbatim>\<open>promise\<close> call (a counter id when there was no
  loading notification); with a handler that is a function whose call on the rejection
  value returns \<open>m\<close>, the function has been called with that value and the title is \<open>m\<close>;
  without an error handler the \<^verbatim>\<open>catch\<close> callback returns normally with the store as it
  was, and the chain adds no notification (it only dismisses the loading one).
\<close>

theorem rejection_becomes_error_toast:
  assumes s: "settle e data (Rejected err) c st = (t, c', st')"
  shows "(getprop data ''error'' \<noteq> Undefined \<and> \<not> is_function e (getprop data ''error'') \<longrightarrow>
      (\<exists>toast \<in> set (toasts st').
         getprop toast ''id'' = (if keeps_id (pid c) then pid c else Num (toastsCounter st)) \<and>
         getprop toast ''type'' = Str ''error'' \<and>
         getprop toast ''title'' = getprop data ''error'')) \<and>
    (\<forall>r g m. getprop data ''error'' = Ref r \<and> callable (objs e r) = Some g \<and> g err = Inr m \<longrightarrow>
      (Ref r, err) \<in> set (calls st') \<and>
      (\<exists>toast \<in> set (toasts st').
         getprop toast ''id'' = (if keeps_id (pid c) then pid c else Num (toastsCounter st)) \<and>
         getprop toast ''type'' = Str ''error'' \<and> getprop toast ''title'' = m)) \<and>
    (getprop data ''error'' = Undefined \<longrightarrow>
      then_catch e data (Rejected err) c st = (None, c, st) \<and>
      set (toasts st') \<subseteq> set (toasts st) \<and>
      toasts st' = (if shouldDismiss c then toasts (snd (dismiss (pid c) st)) else toasts st))"
proof -
  have st': "st' = snd (snd (finally_cb e data (fst (snd (catch_cb e data err c st)))
                (snd (snd (catch_cb e data err c st)))))"
    using s by (simp add: settle_unfold then_catch_Rejected)
  have lit: "\<exists>toast \<in> set (toasts st').
         getprop toast ''id'' = (if keeps_id (pid c) then pid c else Num (toastsCounter st)) \<and>
         getprop toast ''type'' = Str ''error'' \<and>
         getprop toast ''title'' = getprop data ''error''"
    if "getprop data ''error'' \<noteq> Undefined" "\<not> is_function e (getprop data ''error'')"
    using error_toast_after_create [of "pid c" "''error''" "getprop data ''error''" st]
    by (simp add: st' catch_cb_literal [OF that] toasts_finally_cb)
  have fn: "(Ref r, err) \<in> set (calls st') \<and>
      (\<exists>toast \<in> set (toasts st').
         getprop toast ''id'' = (if keeps_id (pid c) then pid c else Num (toastsCounter st)) \<and>
         getprop toast ''type'' = Str ''error'' \<and> getprop toast ''title'' = m)"
    if "getprop data ''error'' = Ref r" "callable (objs e r) = Some g" "g err = Inr m"
    for r g m
  proof -
    let ?st1 = "st\<lparr>calls := calls st @ [(Ref r, err)]\<rparr>"
    let ?d = "[''id'' \<mapsto> pid c, ''type'' \<mapsto> Str ''error'', ''message'' \<mapsto> m]"
    have t: "toasts st' = toasts (snd (create ?d ?st1))"
      by (simp add: st' catch_cb_function [OF that] toasts_finally_cb)
    have k: "(Ref r, err) \<in> set (calls st')"
      by (simp add: st' catch_cb_function [OF that] calls_finally_cb set_calls_create)
    have n: "toastsCounter ?st1 = toastsCounter st"
      by simp
    have x: "\<exists>toast \<in> set (toasts st').
         getprop toast ''id'' = (if keeps_id (pid c) then pid c else Num (toastsCounter st)) \<and>
         getprop toast ''type'' = Str ''error'' \<and> getprop toast ''title'' = m"
      using error_toast_after_create [of "pid c" "''error''" m ?st1] unfolding t n .
    from k x show ?thesis
      by (rule conjI)
  qed
  have ab: "then_catch e data (Rejected err) c st = (None, c, st) \<and>
      set (toasts st') \<subseteq> set (toasts st) \<and>
      toasts st' = (if shouldDismiss c then toasts (snd (dismiss (pid c) st)) else toasts st)"
    if "getprop data ''error'' = Undefined"
    using set_toasts_dismiss [of "pid c" st]
    by (simp add: st' then_catch_Rejected catch_cb_absent [OF that] toasts_finally_cb)
  from lit fn ab show ?thesis
    by blast
qed

theorem rejection_becomes_error_toast_witness:
  "getprop literal_error_data ''error'' \<noteq> Undefined \<and>
   \<not> is_function demo_env (getprop literal_error_data ''error'') \<and>
   (\<exists>toast \<in> set (toasts (snd (snd (settle demo_env literal_error_data
          (Rejected (Str ''boom'')) loading_closure loading_toast)))).
      getprop toast ''id'' = Num 0 \<and> getprop toast ''type'' = Str ''error'' \<and>
      getprop toast ''title'' = Str ''E'') \<and>
   getprop error_data ''error'' = Ref 5 \<and>
   callable (objs demo_env 5) = Some (\<lambda>v. Inr (Str ''failed'')) \<and>
   (Ref 5, Str ''boom'') \<in> set (calls (snd (snd (settle demo_env error_data
      (Rejected (Str ''boom'')) loading_closure loading_toast)))) \<and>
   (\<exists>toast \<in> set (toasts (snd (snd (settle demo_env error_data (Rejected (Str ''boom''))
          loading_closure loading_toast)))).
      getprop toast ''id'' = Num 0 \<and> getprop toast ''type'' = Str ''error'' \<and>
      getprop toast ''title'' = Str ''failed'') \<and>
   getprop loading_data ''error'' = Undefined \<and>
   toasts (snd (snd (settle demo_env loading_data (Rejected (Str ''boom''))
          loading_closure loading_toast))) = []"
proof -
  have k: "(if keeps_id (pid loading_closure) then pid loading_closure
            else Num (toastsCounter loading_toast)) = Num 0"
    by (simp add: loading_closure_def)
  let ?l = "settle demo_env literal_error_data (Rejected (Str ''boom'')) loading_closure
      loading_toast"
  have hl: "?l = (fst ?l, fst (snd ?l), snd (snd ?l))"
    by simp
  have o1: "getprop literal_error_data ''error'' \<noteq> Undefined"
    and o2: "\<not> is_function demo_env (getprop literal_error_data ''error'')"
    and o3: "getprop literal_error_data ''error'' = Str ''E''"
    by (simp_all add: literal_error_data_def is_function_def)
  have l: "\<exists>toast \<in> set (toasts (snd (snd ?l))).
      getprop toast ''id'' = Num 0 \<and> getprop toast ''type'' = Str ''error'' \<and>
      getprop toast ''title'' = Str ''E''"
    using mp [OF rejection_becomes_error_toast [OF hl, THEN conjunct1] conjI [OF o1 o2]]
    unfolding k o3 .
  let ?s = "settle demo_env error_data (Rejected (Str ''boom'')) loading_closure loading_toast"
  let ?g = "\<lambda>v::jsval. Inr (Str ''failed'') :: jsval + jsval"
  have h: "?s = (fst ?s, fst (snd ?s), snd (snd ?s))"
    by simp
  have p1: "getprop error_data ''error'' = Ref 5"
    by (simp add: error_data_def)
  have p2: "callable (objs demo_env 5) = Some ?g"
    by (simp add: demo_env_def)
  have p3: "?g (Str ''boom'') = Inr (Str ''failed'')"
    by simp
  note T = rejection_becomes_error_toast [OF h, THEN conjunct2, THEN conjunct1, rule_format,
      OF conjI [OF p1 conjI [OF p2 p3]]]
  have a: "(Ref 5, Str ''boom'') \<in> set (calls (snd (snd ?s)))"
    by (rule T [THEN conjunct1])
  have b: "\<exists>toast \<in> set (toasts (snd (snd ?s))).
      getprop toast ''id'' = Num 0 \<and> getprop toast ''type'' = Str ''error'' \<and>
      getprop toast ''title'' = Str ''failed''"
    using T [THEN conjunct2] unfolding k .
  let ?u = "settle demo_env loading_data (Rejected (Str ''boom'')) loading_closure loading_toast"
  have hu: "?u = (fst ?u, fst (snd ?u), snd (snd ?u))"
    by simp
  have q: "getprop loading_data ''error'' = Undefined"
    by (simp add: loading_data_def)
  note U = mp [OF rejection_becomes_error_toast [OF hu, THEN conjunct2, THEN conjunct2] q]
  have c: "toasts (snd (snd ?u)) = []"
    using U [THEN conjunct2, THEN conjunct2]
    by (simp add: loading_closure_def loading_toast_def dismiss_def strict_eq_def)
  show ?thesis
    by (intro conjI) (fact o1 o2 l p1 p2 a b q c)+
qed

text \<open>
  C3. The claim fails on the code where the promise resolves to a response whose
  \<^verbatim>\<open>ok\<close> is false and \<^verbatim>\<open>data\<close> has no error handler: that branch of the \<^verbatim>\<open>then\<close>
  callback does not test \<^verbatim>\<open>data.error\<close>, as the other two branches test their handler.
  Here \<^verbatim>\<open>promise(p, {loading: 'L'})\<close> turns its loading notification into one of kind
  \<^verbatim>\<open>'error'\<close> with title \<^verbatim>\<open>undefined\<close>, and leaves it in the registry.
\<close>

theorem http_failure_without_error_handler:
  "getprop loading_data ''error'' = Undefined \<and> http_failure demo_env (Ref 4) \<and>
   fst (promise demo_env (Ref 1) (Some loading_data) init) = Inr (Num 0, Some loading_closure) \<and>
   summary (snd (promise demo_env (Ref 1) (Some loading_data) init)) =
     [(Num 0, Str ''loading'', Str ''L'')] \<and>
   fst (settle demo_env loading_data (Resolved (Ref 4)) loading_closure
     (snd (promise demo_env (Ref 1) (Some loading_data) init))) = None \<and>
   summary (snd (snd (settle demo_env loading_data (Resolved (Ref 4)) loading_closure
     (snd (promise demo_env (Ref 1) (Some loading_data) init))))) =
     [(Num 0, Str ''error'', Undefined)]"
  by (simp add: promise_eval)

text \<open>
  C7. Without \<^verbatim>\<open>data\<close>, \<^verbatim>\<open>promise\<close> returns \<^verbatim>\<open>undefined\<close>, changes nothing, calls nothing
  and registers no callback. With \<^verbatim>\<open>data = {}\<close> it returns \<^verbatim>\<open>undefined\<close> and creates
  nothing at once, but when the promise resolves to a response whose \<^verbatim>\<open>ok\<close> is false the
  same unguarded branch creates a notification of kind \<^verbatim>\<open>'error'\<close> with title
  \<^verbatim>\<open>undefined\<close> in the empty registry.
\<close>

theorem promise_without_handlers_creates_toast:
  "promise demo_env (Ref 1) None init = (Inr (Undefined, None), init) \<and>
   promise demo_env (Ref 1) (Some Map.empty) init =
     (Inr (Undefined, Some \<lparr>pid = Undefined, shouldDismiss = False, awaited = Ref 1\<rparr>), init) \<and>
   toasts init = [] \<and>
   summary (snd (snd (settle demo_env Map.empty (Resolved (Ref 4))
     \<lparr>pid = Undefined, shouldDismiss = False, awaited = Ref 1\<rparr> init))) =
     [(Num 0, Str ''error'', Undefined)]"
  by (simp add: promise_eval promise_def)

section \<open>custom\<close>

text \<open>
  C9. \<^verbatim>\<open>custom\<close> tests the caller's id with \<^verbatim>\<open>data?.id || toastsCounter++\<close>, so the id 0
  counts as absent where \<^verbatim>\<open>create\<close> keeps it: with the counter at 2,
  \<^verbatim>\<open>custom(c, {id: 0})\<close> updates the notification 0 but returns 2 and moves the counter
  to 3, while \<^verbatim>\<open>create({component: c, id: 0})\<close> returns 0 and leaves the counter. With an
  \<^verbatim>\<open>id\<close> property that is \<^verbatim>\<open>undefined\<close> the counter is drawn twice: the notification
  gets the id 3 and \<^verbatim>\<open>custom\<close> returns 2.
\<close>

theorem custom_with_id_zero:
  "fst (custom (Ref 7) (Some [''id'' \<mapsto> Num 0]) two_toasts) = Num 2 \<and>
   toastsCounter (snd (custom (Ref 7) (Some [''id'' \<mapsto> Num 0]) two_toasts)) = 3 \<and>
   ids (snd (custom (Ref 7) (Some [''id'' \<mapsto> Num 0]) two_toasts)) = [Num 1, Num 0] \<and>
   fst (create [''component'' \<mapsto> Ref 7, ''id'' \<mapsto> Num 0] two_toasts) = Num 0 \<and>
   toastsCounter (snd (create [''component'' \<mapsto> Ref 7, ''id'' \<mapsto> Num 0] two_toasts)) = 2 \<and>
   fst (custom (Ref 7) (Some [''id'' \<mapsto> Undefined]) two_toasts) = Num 2 \<and>
   ids (snd (custom (Ref 7) (Some [''id'' \<mapsto> Undefined]) two_toasts)) = [Num 3, Num 1, Num 0]"
  by (simp add: custom_unfold spread_def create_unfold assign_id_def ids_def two_toasts_def
      merge_toast_def new_toast_def strict_eq_def)


end
